theory Spec2Isabelle
  imports Complex_Main "HOL-Library.Multiset"
begin

section \<open>Data model (types.ts)\<close>

text \<open>
  JavaScript numbers are modelled as mathematical reals (coordinates, angles, times) and as
  integers (inventory counts, which start as integers and only ever grow by one); rounding
  error, NaN and the infinities of IEEE arithmetic are outside the model.
\<close>

record Vector3 =
  vec_x :: real
  vec_y :: real
  vec_z :: real

datatype BlockType =
    AIR | GRASS | DIRT | STONE | WOOD | LEAVES | SAND | WATER | COAL_ORE | DIAMOND_ORE
  | BEDROCK | PLANK | BRICK | GLASS | FLOWER | SNOW | SANDSTONE

record BlockData =
  block_id :: string
  block_type :: BlockType
  block_x :: real
  block_y :: real
  block_z :: real

datatype GameMode = MINE | BUILD

type_synonym Inventory = "BlockType \<rightharpoonup> int"

record GameSettings =
  settings_dwellTime :: real
  cursorSize :: real
  highContrast :: bool
  moveSpeed :: real
  turnSpeed :: real

record PlayerState =
  position :: Vector3
  rotation :: real
  isWalking :: bool

section \<open>Scene state (GameScene.tsx)\<close>

text \<open>
  \<open>interactionRef\<close>: the dwell target. Each field is nullable in the source.
\<close>

record Interaction =
  targetId :: "nat option"
  startTime :: "real option"
  faceNormal :: "Vector3 option"

text \<open>
  The values the frame loop and \<open>performAction\<close> read through the component's refs
  (\<open>playerStateRef\<close>, \<open>localBlocksRef\<close>, \<open>modeRef\<close>, \<open>inventoryRef\<close>,
  \<open>selectedBlockRef\<close>, \<open>dwellTimeRef\<close>, \<open>interactionRef\<close>). React commits a state
  update and the \<open>useEffect\<close> hooks copy it into the refs before the next animation
  frame runs, so one record holds both the state and its ref.
\<close>

record Scene =
  playerState :: PlayerState
  localBlocks :: "BlockData list"
  inventory :: Inventory
  mode :: GameMode
  selectedBlockType :: BlockType
  dwellTime :: real
  interaction :: Interaction

section \<open>performAction\<close>

text \<open>\<open>Math.round\<close>: the nearest integer, a tie going towards plus infinity.\<close>

definition Math_round :: "real \<Rightarrow> real" where
  "Math_round r = of_int \<lfloor>r + 1 / 2\<rfloor>"

text \<open>\<open>blocks[index]\<close>: \<open>undefined\<close> when the index is past the end of the array.\<close>

definition block_at :: "BlockData list \<Rightarrow> nat \<Rightarrow> BlockData option" where
  "block_at blocks index = (if index < length blocks then Some (blocks ! index) else None)"

text \<open>\<open>newBlocks.splice(index, 1)\<close> on a copy of the array.\<close>

definition splice1 :: "nat \<Rightarrow> 'a list \<Rightarrow> 'a list" where
  "splice1 index xs = take index xs @ drop (Suc index) xs"

text \<open>\<open>newInv[t] || 0\<close>: a missing entry counts as zero.\<close>

definition inv_count :: "Inventory \<Rightarrow> BlockType \<Rightarrow> int" where
  "inv_count currentInv t = (case currentInv t of None \<Rightarrow> 0 | Some n \<Rightarrow> n)"

text \<open>The template literal \<open>`placed-${Date.now()}`\<close>, with the decimal digits written out.\<close>

definition digit_char :: "nat \<Rightarrow> char" where
  "digit_char d = ''0123456789'' ! d"

fun decimal :: "nat \<Rightarrow> string" where
  "decimal n =
     (if n < 10 then [digit_char n]
      else decimal (n div 10) @ [digit_char (n mod 10)])"

declare decimal.simps [simp del]

definition placed_id :: "nat \<Rightarrow> string" where
  "placed_id dateNow = ''placed-'' @ decimal dateNow"

text \<open>
  \<open>performAction(index, hit)\<close>. The \<open>hit\<close> argument is never read by the source; the
  face normal comes from \<open>interactionRef\<close>. \<open>dateNow\<close> is the reading of \<open>Date.now()\<close>.
  \<open>onInventoryChange\<close> and \<open>setLocalBlocks\<close> are the writes to \<open>inventory\<close> and
  \<open>localBlocks\<close>.
\<close>

definition performAction :: "nat \<Rightarrow> nat \<Rightarrow> Scene \<Rightarrow> Scene" where
  "performAction dateNow index s =
     (let blocks = localBlocks s;
          currentInv = inventory s;
          currentMode = mode s;
          selected = selectedBlockType s
      in case block_at blocks index of
           None \<Rightarrow> s
         | Some targetBlock \<Rightarrow>
             (case currentMode of
                MINE \<Rightarrow>
                  if block_type targetBlock = BEDROCK then s
                  else s\<lparr>inventory :=
                            currentInv(block_type targetBlock \<mapsto>
                              inv_count currentInv (block_type targetBlock) + 1),
                         localBlocks := splice1 index blocks\<rparr>
              | BUILD \<Rightarrow>
                  (case faceNormal (interaction s) of
                     None \<Rightarrow> s
                   | Some normal \<Rightarrow>
                       let newBlock =
                             \<lparr>block_id = placed_id dateNow,
                              block_type = selected,
                              block_x = Math_round (block_x targetBlock + vec_x normal),
                              block_y = Math_round (block_y targetBlock + vec_y normal),
                              block_z = Math_round (block_z targetBlock + vec_z normal)\<rparr>
                       in s\<lparr>inventory := currentInv,
                            localBlocks := blocks @ [newBlock]\<rparr>)))"

section \<open>getTerrainHeightAt\<close>

text \<open>
  The \<open>for\<close> loop over the blocks, \<open>maxY\<close> being the running maximum. The test
  \<open>!['AIR', 'FLOWER', 'WATER'].includes(b.type)\<close> is the membership in \<open>set non_solid\<close>.
\<close>

definition non_solid :: "BlockType list" where
  "non_solid = [AIR, FLOWER, WATER]"

fun terrain_loop :: "real \<Rightarrow> real \<Rightarrow> BlockData list \<Rightarrow> real \<Rightarrow> real" where
  "terrain_loop rx rz [] maxY = maxY"
| "terrain_loop rx rz (b # bs) maxY =
     terrain_loop rx rz bs
       (if block_x b = rx \<and> block_z b = rz then
          (if block_type b \<notin> set non_solid then
             (if block_y b > maxY then block_y b else maxY)
           else maxY)
        else maxY)"

definition getTerrainHeightAt :: "real \<Rightarrow> real \<Rightarrow> BlockData list \<Rightarrow> real" where
  "getTerrainHeightAt px pz blocks =
     (let rx = Math_round px; rz = Math_round pz in terrain_loop rx rz blocks (- 10))"

section \<open>The frame loop: animate\<close>

text \<open>
  What one frame receives from outside: the pointer's horizontal position and
  \<open>window.innerWidth\<close>, the result \<open>intersects\<close> of the ray cast against the block mesh (of
  each hit its \<open>instanceId\<close>, possibly undefined, and \<open>hit.face?.normal || null\<close>), the
  readings of \<open>performance.now()\<close> at its three call sites in source order (when a new target
  is acquired, when the elapsed time is computed, when the timer restarts after a fire), and
  the reading of \<open>Date.now()\<close>.
\<close>

record Intersection =
  instanceId :: "nat option"
  face_normal :: "Vector3 option"

record Frame =
  mouse_x :: real
  innerWidth :: real
  intersects :: "Intersection list"
  now_acquire :: real
  now_elapsed :: real
  now_restart :: real
  dateNow :: nat

text \<open>The calls a frame makes to \<open>onHoverChange\<close> and to \<open>performAction\<close>, in order.\<close>

datatype Event = HoverChange bool real | PerformAction nat

subsection \<open>Locomotion\<close>

definition speed :: real where
  "speed = 4 / 100"

definition rotSpeed :: real where
  "rotSpeed = 8 / 1000"

definition zoneSize :: "real \<Rightarrow> real" where
  "zoneSize screenW = screenW * (2 / 10)"

text \<open>The rotation after the turn zones have been applied (\<open>nextRot\<close>).\<close>

definition turn :: "real \<Rightarrow> real \<Rightarrow> real \<Rightarrow> real" where
  "turn screenW mx rot =
     (if mx < zoneSize screenW then
        (let intensity = 1 - mx / zoneSize screenW
         in rot + rotSpeed * (1 / 2 + intensity * (1 / 2)))
      else if mx > screenW - zoneSize screenW then
        (let intensity = (mx - (screenW - zoneSize screenW)) / zoneSize screenW
         in rot - rotSpeed * (1 / 2 + intensity * (1 / 2)))
      else rot)"

definition nextRot :: "Frame \<Rightarrow> Scene \<Rightarrow> real" where
  "nextRot f s = turn (innerWidth f) (mouse_x f) (rotation (playerState s))"

text \<open>The horizontal move: \<open>nextPos\<close> after the \<open>if (isMoving)\<close> block.\<close>

definition walk :: "bool \<Rightarrow> real \<Rightarrow> Vector3 \<Rightarrow> Vector3" where
  "walk isMoving rot pos =
     (if isMoving then
        pos\<lparr>vec_x := vec_x pos + sin rot * speed, vec_z := vec_z pos + cos rot * speed\<rparr>
      else pos)"

subsection \<open>Terrain following\<close>

definition targetY :: "BlockData list \<Rightarrow> Vector3 \<Rightarrow> real" where
  "targetY blocks pos =
     (let groundY = (if length blocks > 0 then getTerrainHeightAt (vec_x pos) (vec_z pos) blocks
                     else - 10);
          groundY = (if groundY < 1 then 1 else groundY)
      in groundY + 1)"

definition vertical :: "real \<Rightarrow> real \<Rightarrow> real" where
  "vertical tY py =
     (if py < tY then
        (let py = py + 2 / 10 in if py > tY then tY else py)
      else if py > tY then
        (let py = py - 1 / 10 in if py < tY then tY else py)
      else py)"

definition nextPos :: "Frame \<Rightarrow> Scene \<Rightarrow> Vector3" where
  "nextPos f s =
     (let pState = playerState s;
          p = walk (isWalking pState) (nextRot f s) (position pState)
      in p\<lparr>vec_y := vertical (targetY (localBlocks s) p) (vec_y p)\<rparr>)"

text \<open>
  \<open>setPlayerState\<close> is called only when the rotation or a coordinate has changed by more
  than 0.001; otherwise the player state stays as it was.
\<close>

definition locomotion :: "Frame \<Rightarrow> Scene \<Rightarrow> Scene" where
  "locomotion f s =
     (let pState = playerState s; nP = nextPos f s; nR = nextRot f s
      in if \<bar>nR - rotation pState\<bar> > 1 / 1000 \<or>
            \<bar>vec_x nP - vec_x (position pState)\<bar> > 1 / 1000 \<or>
            \<bar>vec_z nP - vec_z (position pState)\<bar> > 1 / 1000 \<or>
            \<bar>vec_y nP - vec_y (position pState)\<bar> > 1 / 1000
         then s\<lparr>playerState := pState\<lparr>position := nP, rotation := nR\<rparr>\<rparr>
         else s)"

subsection \<open>Dwell\<close>

text \<open>
  The block from \<open>if (intersects.length > 0)\<close> to the end of its \<open>else\<close>. The test
  \<open>if (interactionRef.current.startTime)\<close> fails on \<open>null\<close> and on \<open>0\<close>. The division
  \<open>elapsed / currentDwell\<close> is the real one: the theorems below take the dwell time positive,
  as the application's settings (1000 or 500) always are.
\<close>

definition dwell :: "Frame \<Rightarrow> Scene \<Rightarrow> Scene \<times> Event list" where
  "dwell f s =
     (case intersects f of
        [] \<Rightarrow>
          (s\<lparr>interaction := (interaction s)\<lparr>targetId := None, startTime := None\<rparr>\<rparr>,
           [HoverChange False 0])
      | hit # _ \<Rightarrow>
          (case instanceId hit of
             None \<Rightarrow> (s, [])
           | Some i \<Rightarrow>
               if \<not> i < length (localBlocks s) then (s, [])
               else
                 let it = interaction s;
                     it = (if targetId it \<noteq> Some i
                           then it\<lparr>targetId := Some i,
                                   startTime := Some (now_acquire f),
                                   faceNormal := face_normal hit\<rparr>
                           else it);
                     s = s\<lparr>interaction := it\<rparr>
                 in (case startTime it of
                       None \<Rightarrow> (s, [])
                     | Some start \<Rightarrow>
                         if start = 0 then (s, [])
                         else
                           let elapsed = now_elapsed f - start;
                               progress = min (elapsed / dwellTime s) 1
                           in if 1 \<le> progress then
                                (let s = performAction (dateNow f) i s
                                 in s\<lparr>interaction :=
                                        (interaction s)\<lparr>startTime := Some (now_restart f)\<rparr>\<rparr>,
                                 [HoverChange True progress, PerformAction i,
                                  HoverChange False 0])
                              else (s, [HoverChange True progress]))))"

text \<open>
  One frame of the running loop, once the scene, the camera, the renderer and the avatar
  exist (before that a frame only schedules the next one). Limb swing, head bob, camera
  easing and rendering only write to the three.js scene and are left out; the ray cast is the
  input \<open>intersects\<close>.
\<close>

definition animate :: "Frame \<Rightarrow> Scene \<Rightarrow> Scene \<times> Event list" where
  "animate f s = dwell f (locomotion f s)"

text \<open>
  App.tsx hands the scene \<open>dwellTime={settings.dwellTime}\<close> and nothing else of the
  settings; \<open>dwellTimeRef\<close> takes the value before the frame runs.
\<close>

definition App_frame :: "GameSettings \<Rightarrow> Frame \<Rightarrow> Scene \<Rightarrow> Scene \<times> Event list" where
  "App_frame settings f s = animate f (s\<lparr>dwellTime := settings_dwellTime settings\<rparr>)"

subsection \<open>Runs of frames\<close>

fun run :: "Frame list \<Rightarrow> Scene \<Rightarrow> Scene" where
  "run [] s = s"
| "run (f # fs) s = run fs (fst (animate f s))"

fun events :: "Frame list \<Rightarrow> Scene \<Rightarrow> Event list list" where
  "events [] s = []"
| "events (f # fs) s = snd (animate f s) # events fs (fst (animate f s))"

text \<open>The indices \<open>performAction\<close> was called with, and the first progress reported.\<close>

fun action_calls :: "Event list \<Rightarrow> nat list" where
  "action_calls [] = []"
| "action_calls (PerformAction i # es) = i # action_calls es"
| "action_calls (HoverChange b p # es) = action_calls es"

fun reported_progress :: "Event list \<Rightarrow> real option" where
  "reported_progress [] = None"
| "reported_progress (HoverChange b p # es) = Some p"
| "reported_progress (PerformAction i # es) = reported_progress es"

text \<open>A frame resolves target \<open>i\<close>: the nearest hit is instance \<open>i\<close>, within the block array.\<close>

definition resolves :: "nat \<Rightarrow> Frame \<Rightarrow> Scene \<Rightarrow> bool" where
  "resolves i f s =
     (case intersects f of
        [] \<Rightarrow> False
      | hit # _ \<Rightarrow> instanceId hit = Some i \<and> i < length (localBlocks s))"

fun gaze_held :: "nat \<Rightarrow> Frame list \<Rightarrow> Scene \<Rightarrow> bool" where
  "gaze_held i [] s = True"
| "gaze_held i (f # fs) s = (resolves i f s \<and> gaze_held i fs (fst (animate f s)))"

text \<open>
  The clock: every reading of \<open>performance.now()\<close> is positive and no reading is earlier than
  the one before it, \<open>t\<close> being the last reading before the run.
\<close>

fun clock_ok :: "real \<Rightarrow> Frame list \<Rightarrow> bool" where
  "clock_ok t [] = True"
| "clock_ok t (f # fs) =
     (0 < now_acquire f \<and> t \<le> now_acquire f \<and> now_acquire f \<le> now_elapsed f \<and>
      now_elapsed f \<le> now_restart f \<and> clock_ok (now_restart f) fs)"

text \<open>The times (readings of the elapsed-time call) of the frames that fired.\<close>

fun fire_times :: "Frame list \<Rightarrow> Scene \<Rightarrow> real list" where
  "fire_times [] s = []"
| "fire_times (f # fs) s =
     (if action_calls (snd (animate f s)) \<noteq> [] then [now_elapsed f] else [])
       @ fire_times fs (fst (animate f s))"

text \<open>The progress values a run reports, frame by frame.\<close>

fun progresses :: "Frame list \<Rightarrow> Scene \<Rightarrow> real option list" where
  "progresses [] s = []"
| "progresses (f # fs) s =
     reported_progress (snd (animate f s)) # progresses fs (fst (animate f s))"

text \<open>Whenever a target is set, the timer's start time is a positive clock reading.\<close>

definition timer_ok :: "Scene \<Rightarrow> bool" where
  "timer_ok s =
     (case targetId (interaction s) of
        None \<Rightarrow> True
      | Some i \<Rightarrow> (case startTime (interaction s) of None \<Rightarrow> False | Some t \<Rightarrow> 0 < t))"

text \<open>
  The start of the timer that a frame on target \<open>i\<close> measures from: the stored start time
  when \<open>i\<close> is already the target, the frame's own reading when it is newly acquired.
\<close>

definition timer_start :: "nat \<Rightarrow> Frame \<Rightarrow> Scene \<Rightarrow> real" where
  "timer_start i f s =
     (if targetId (interaction s) = Some i
      then (case startTime (interaction s) of None \<Rightarrow> 0 | Some t \<Rightarrow> t)
      else now_acquire f)"

text \<open>
  The target height a frame steers towards (\<open>targetY\<close> at the position after the horizontal
  move), and a run over which it stays at \<open>T\<close>.
\<close>

definition frame_targetY :: "Frame \<Rightarrow> Scene \<Rightarrow> real" where
  "frame_targetY f s =
     (let pState = playerState s
      in targetY (localBlocks s) (walk (isWalking pState) (nextRot f s) (position pState)))"

fun target_fixed :: "real \<Rightarrow> Frame list \<Rightarrow> Scene \<Rightarrow> bool" where
  "target_fixed T [] s = True"
| "target_fixed T (f # fs) s = (frame_targetY f s = T \<and> target_fixed T fs (fst (animate f s)))"

text \<open>
  The window has a positive width in every frame of a run. (The model's division is the
  real one; a window of width zero would make the loop divide by zero.)
\<close>

definition window_ok :: "Frame list \<Rightarrow> bool" where
  "window_ok fs = list_all (\<lambda>f. 0 < innerWidth f) fs"

definition player_y :: "Scene \<Rightarrow> real" where
  "player_y s = vec_y (position (playerState s))"

section \<open>The specification's terms\<close>

text \<open>
  The solid blocks of the column under a point, in the words of the specification: the
  blocks whose \<open>(x, z)\<close> equal the rounded query coordinates and whose type is not air,
  flower or water.
\<close>

definition solid_column :: "real \<Rightarrow> real \<Rightarrow> BlockData list \<Rightarrow> BlockData list" where
  "solid_column px pz blocks =
     filter (\<lambda>b. block_x b = Math_round px \<and> block_z b = Math_round pz \<and>
                 block_type b \<noteq> AIR \<and> block_type b \<noteq> FLOWER \<and> block_type b \<noteq> WATER) blocks"

section \<open>Example inputs\<close>

text \<open>\<open>INITIAL_SETTINGS\<close> and \<open>INITIAL_PLAYER\<close> of App.tsx.\<close>

definition INITIAL_SETTINGS :: GameSettings where
  "INITIAL_SETTINGS =
     \<lparr>settings_dwellTime = 1000, cursorSize = 48, highContrast = False,
      moveSpeed = 1 / 10, turnSpeed = 3 / 100\<rparr>"

definition INITIAL_PLAYER :: PlayerState where
  "INITIAL_PLAYER =
     \<lparr>position = \<lparr>vec_x = 16, vec_y = 3, vec_z = 16\<rparr>, rotation = 0, isWalking = False\<rparr>"

text \<open>The column of \<open>LOADING_CHUNK\<close> under the initial player: bedrock at 0, grass at 1.\<close>

definition column16 :: "BlockData list" where
  "column16 =
     [\<lparr>block_id = ''base-16-16'', block_type = BEDROCK, block_x = 16, block_y = 0, block_z = 16\<rparr>,
      \<lparr>block_id = ''grass-16-16'', block_type = GRASS, block_x = 16, block_y = 1, block_z = 16\<rparr>]"

text \<open>The scene when play starts over that column, with App.tsx's initial inventory.\<close>

definition scene0 :: Scene where
  "scene0 =
     \<lparr>playerState = INITIAL_PLAYER,
      localBlocks = column16,
      inventory = [DIRT \<mapsto> 0, WOOD \<mapsto> 5, STONE \<mapsto> 0],
      mode = MINE,
      selectedBlockType = WOOD,
      dwellTime = 1000,
      interaction = \<lparr>targetId = None, startTime = None, faceNormal = None\<rparr>\<rparr>"

definition face_up :: Vector3 where
  "face_up = \<lparr>vec_x = 0, vec_y = 1, vec_z = 0\<rparr>"

definition face_east :: Vector3 where
  "face_east = \<lparr>vec_x = 1, vec_y = 0, vec_z = 0\<rparr>"

text \<open>
  A frame at time \<open>t\<close> whose ray hits instance \<open>i\<close> on the face with normal \<open>n\<close>, the pointer
  in the middle of a 1000 pixel wide window, and a frame whose ray hits nothing.
\<close>

definition gaze_frame :: "nat \<Rightarrow> Vector3 \<Rightarrow> real \<Rightarrow> Frame" where
  "gaze_frame i n t =
     \<lparr>mouse_x = 500, innerWidth = 1000,
      intersects = [\<lparr>instanceId = Some i, face_normal = Some n\<rparr>],
      now_acquire = t, now_elapsed = t, now_restart = t, dateNow = 0\<rparr>"

definition idle_frame :: "real \<Rightarrow> Frame" where
  "idle_frame t =
     \<lparr>mouse_x = 500, innerWidth = 1000, intersects = [],
      now_acquire = t, now_elapsed = t, now_restart = t, dateNow = 0\<rparr>"

text \<open>
  Gaze held on instance 0: acquired at 100 ms, then frames at 600, 1100, 1600 and 2100 ms.
\<close>

definition held_run :: "Frame list" where
  "held_run = map (gaze_frame 0 face_up) [100, 600, 1100, 1600, 2100]"

text \<open>The scene with the player at height \<open>h\<close>, and the scene with the player walking.\<close>

definition scene_at :: "real \<Rightarrow> Scene" where
  "scene_at h =
     scene0\<lparr>playerState :=
       INITIAL_PLAYER\<lparr>position := \<lparr>vec_x = 16, vec_y = h, vec_z = 16\<rparr>\<rparr>\<rparr>"

definition walking_scene :: Scene where
  "walking_scene = scene0\<lparr>playerState := INITIAL_PLAYER\<lparr>isWalking := True\<rparr>\<rparr>"

text \<open>The scene in BUILD mode, the dwell target's face normal being \<open>n\<close>.\<close>

definition build_scene :: "Vector3 option \<Rightarrow> Scene" where
  "build_scene n =
     scene0\<lparr>mode := BUILD,
            interaction := \<lparr>targetId = Some 1, startTime = Some 100, faceNormal = n\<rparr>\<rparr>"

text \<open>A solid block far below the sentinel height.\<close>

definition deep_stone :: BlockData where
  "deep_stone =
     \<lparr>block_id = ''deep'', block_type = STONE, block_x = 0, block_y = - 20, block_z = 0\<rparr>"

section \<open>Evaluation of the examples\<close>

lemmas frame_defs = gaze_frame_def idle_frame_def face_up_def face_east_def

lemmas scene_defs = scene0_def INITIAL_PLAYER_def column16_def

lemmas loco_defs = locomotion_def nextPos_def nextRot_def turn_def zoneSize_def walk_def
  targetY_def vertical_def getTerrainHeightAt_def Math_round_def non_solid_def

lemmas dwell_defs = animate_def dwell_def performAction_def block_at_def

section \<open>The action: mining and building\<close>

lemma Math_round_add_int: "c \<in> \<int> \<Longrightarrow> Math_round (c + n) = c + Math_round n"
  by (auto simp: Math_round_def elim!: Ints_cases) (simp add: add.assoc)

lemma mset_splice1: "i < length xs \<Longrightarrow> mset (splice1 i xs) + {#xs ! i#} = mset xs"
  unfolding splice1_def
  by (subst (3) id_take_nth_drop [of i xs]) simp_all

lemma performAction_keeps [simp]:
  "interaction (performAction d i s) = interaction s"
  "dwellTime (performAction d i s) = dwellTime s"
  "playerState (performAction d i s) = playerState s"
  by (simp_all add: performAction_def Let_def split: option.splits GameMode.splits)

text \<open>
  C10. For either mode, an index with no block in the current block list (at or past its
  end) makes \<open>performAction\<close> return at once: the block list, the inventory and the rest of
  the scene are unchanged, and no branch of the function fails.
\<close>

theorem performAction_missing_block:
  assumes "length (localBlocks s) \<le> index"
  shows "performAction stamp index s = s \<and>
         localBlocks (performAction stamp index s) = localBlocks s \<and>
         inventory (performAction stamp index s) = inventory s"
  using assms by (simp add: performAction_def block_at_def)

theorem performAction_missing_block_witness:
  "length (localBlocks scene0) \<le> 2 \<and> performAction 7 2 scene0 = scene0 \<and>
   length (localBlocks (scene0\<lparr>mode := BUILD\<rparr>)) \<le> 5 \<and>
   performAction 7 5 (scene0\<lparr>mode := BUILD\<rparr>) = scene0\<lparr>mode := BUILD\<rparr>"
  using performAction_missing_block [of scene0 2 7]
    performAction_missing_block [of "scene0\<lparr>mode := BUILD\<rparr>" 5 7]
  by (simp add: scene_defs)

text \<open>
  C1. In MINE mode, on an index that holds a block: if the block is not BEDROCK, the
  inventory count of its type goes up by exactly one (the other entries stay), the block at
  that index is removed from the list and the list is one shorter; if it is BEDROCK, block
  list and inventory are unchanged.
\<close>

theorem mine_effect:
  assumes "index < length (localBlocks s)" and "mode s = MINE"
  shows "let b = localBlocks s ! index; s' = performAction stamp index s in
          (block_type b \<noteq> BEDROCK \<longrightarrow>
             inv_count (inventory s') (block_type b) =
               inv_count (inventory s) (block_type b) + 1 \<and>
             (\<forall>t. t \<noteq> block_type b \<longrightarrow> inventory s' t = inventory s t) \<and>
             localBlocks s' = take index (localBlocks s) @ drop (Suc index) (localBlocks s) \<and>
             mset (localBlocks s') + {#b#} = mset (localBlocks s) \<and>
             length (localBlocks s') = length (localBlocks s) - 1) \<and>
          (block_type b = BEDROCK \<longrightarrow>
             localBlocks s' = localBlocks s \<and> inventory s' = inventory s)"
  using assms mset_splice1 [of index "localBlocks s"]
  by (simp add: performAction_def block_at_def Let_def inv_count_def splice1_def)

theorem mine_effect_witness:
  "1 < length (localBlocks scene0) \<and> mode scene0 = MINE \<and>
   block_type (localBlocks scene0 ! 1) = GRASS \<and>
   inv_count (inventory scene0) GRASS = 0 \<and>
   inv_count (inventory (performAction 7 1 scene0)) GRASS = 1 \<and>
   inventory (performAction 7 1 scene0) WOOD = Some 5 \<and>
   localBlocks (performAction 7 1 scene0) = [column16 ! 0] \<and>
   block_type (localBlocks scene0 ! 0) = BEDROCK \<and>
   localBlocks (performAction 7 0 scene0) = localBlocks scene0 \<and>
   inventory (performAction 7 0 scene0) = inventory scene0"
  using mine_effect [of 1 scene0 7] mine_effect [of 0 scene0 7]
  by (simp add: scene_defs inv_count_def Let_def)

text \<open>
  C2. In BUILD mode, on an index that holds a block at integer coordinates \<open>(x, y, z)\<close>:
  with a known face normal \<open>n\<close>, a block of the selected type is appended at
  \<open>(x + round nx, y + round ny, z + round nz)\<close>, the list is one longer and the inventory is
  unchanged; with no face normal, block list and inventory are unchanged.
\<close>

theorem build_effect:
  assumes "index < length (localBlocks s)" and "mode s = BUILD"
    and "block_x (localBlocks s ! index) \<in> \<int>"
    and "block_y (localBlocks s ! index) \<in> \<int>"
    and "block_z (localBlocks s ! index) \<in> \<int>"
  shows "let b = localBlocks s ! index; s' = performAction stamp index s in
          (\<forall>n. faceNormal (interaction s) = Some n \<longrightarrow>
             localBlocks s' = localBlocks s @
               [\<lparr>block_id = placed_id stamp, block_type = selectedBlockType s,
                 block_x = block_x b + Math_round (vec_x n),
                 block_y = block_y b + Math_round (vec_y n),
                 block_z = block_z b + Math_round (vec_z n)\<rparr>] \<and>
             length (localBlocks s') = length (localBlocks s) + 1 \<and>
             inventory s' = inventory s) \<and>
          (faceNormal (interaction s) = None \<longrightarrow>
             localBlocks s' = localBlocks s \<and> inventory s' = inventory s)"
  using assms
  by (simp add: performAction_def block_at_def Let_def Math_round_add_int)

theorem build_effect_witness:
  "1 < length (localBlocks (build_scene (Some face_up))) \<and>
   mode (build_scene (Some face_up)) = BUILD \<and>
   block_x (localBlocks (build_scene (Some face_up)) ! 1) \<in> \<int> \<and>
   block_y (localBlocks (build_scene (Some face_up)) ! 1) \<in> \<int> \<and>
   block_z (localBlocks (build_scene (Some face_up)) ! 1) \<in> \<int> \<and>
   localBlocks (performAction 7 1 (build_scene (Some face_up))) =
     column16 @ [\<lparr>block_id = ''placed-7'', block_type = WOOD,
                  block_x = 16, block_y = 2, block_z = 16\<rparr>] \<and>
   inventory (performAction 7 1 (build_scene (Some face_up))) =
     inventory (build_scene (Some face_up)) \<and>
   performAction 7 1 (build_scene None) = build_scene None"
proof -
  have i: "(16::real) \<in> \<int>" "(1::real) \<in> \<int>" by simp_all
  show ?thesis
    using build_effect [of 1 "build_scene (Some face_up)" 7]
      build_effect [of 1 "build_scene None" 7] i
    by (simp add: build_scene_def scene_defs face_up_def Let_def placed_id_def decimal.simps digit_char_def
        Math_round_def performAction_def block_at_def)
qed

section \<open>Terrain height\<close>

lemma non_solid_iff: "t \<notin> set non_solid \<longleftrightarrow> t \<noteq> AIR \<and> t \<noteq> FLOWER \<and> t \<noteq> WATER"
  by (auto simp: non_solid_def)

lemma terrain_loop_Max:
  "terrain_loop rx rz bs m =
     Max (insert m (block_y ` set (filter (\<lambda>b. block_x b = rx \<and> block_z b = rz \<and>
                 block_type b \<noteq> AIR \<and> block_type b \<noteq> FLOWER \<and> block_type b \<noteq> WATER) bs)))"
proof (induction bs arbitrary: m)
  case Nil
  show ?case by simp
next
  case (Cons b bs)
  let ?S = "block_y ` set (filter (\<lambda>b. block_x b = rx \<and> block_z b = rz \<and>
                 block_type b \<noteq> AIR \<and> block_type b \<noteq> FLOWER \<and> block_type b \<noteq> WATER) bs)"
  have fin: "finite ?S" by simp
  have ins: "Max (insert (max m y) ?S) = Max (insert m (insert y ?S))" for y
    using fin by (cases "?S = {}") (simp_all add: max.assoc)
  show ?case
  proof (cases "block_x b = rx \<and> block_z b = rz \<and> block_type b \<notin> set non_solid")
    case True
    have "(if block_y b > m then block_y b else m) = max m (block_y b)" by (simp add: max_def)
    with True show ?thesis
      using Cons.IH [of "max m (block_y b)"] ins [of "block_y b"]
      by (simp add: non_solid_iff)
  next
    case False
    then show ?thesis
      using Cons.IH [of m] by (auto simp: non_solid_iff)
  qed
qed

text \<open>
  C5 (as amended). The terrain height over the column of the rounded query point is the
  larger of the sentinel \<open>- 10\<close> and the greatest \<open>y\<close> among the column's solid blocks: it is
  \<open>- 10\<close> when the column has no solid block, and it is the greatest \<open>y\<close> of the solid blocks
  as soon as one of them lies at height \<open>- 10\<close> or above.
\<close>

theorem getTerrainHeightAt_max:
  "let col = solid_column px pz blocks; h = getTerrainHeightAt px pz blocks in
     h = Max (insert (- 10) (block_y ` set col)) \<and>
     (col = [] \<longrightarrow> h = - 10) \<and>
     ((\<exists>b \<in> set col. - 10 \<le> block_y b) \<longrightarrow> h = Max (block_y ` set col))"
proof -
  let ?col = "solid_column px pz blocks"
  have h: "getTerrainHeightAt px pz blocks = Max (insert (- 10) (block_y ` set ?col))"
    by (simp add: getTerrainHeightAt_def solid_column_def terrain_loop_Max)
  have "Max (insert (- 10) (block_y ` set ?col)) = Max (block_y ` set ?col)"
    if "b \<in> set ?col" "- 10 \<le> block_y b" for b
  proof -
    have ne: "block_y ` set ?col \<noteq> {}" using that by auto
    have "block_y b \<le> Max (block_y ` set ?col)" using that by simp
    then have "- 10 \<le> Max (block_y ` set ?col)" using that by linarith
    then show ?thesis using ne by (simp add: max_def)
  qed
  with h show ?thesis by (auto simp: Let_def)
qed

theorem getTerrainHeightAt_max_witness:
  "solid_column 3 3 column16 = [] \<and> getTerrainHeightAt 3 3 column16 = - 10 \<and>
   solid_column 16 16 column16 = column16 \<and> - 10 \<le> block_y (column16 ! 1) \<and>
   getTerrainHeightAt 16 16 column16 = 1 \<and>
   getTerrainHeightAt (157 / 10) (163 / 10) column16 = 1"
  using getTerrainHeightAt_max [of 16 16 column16] getTerrainHeightAt_max [of 3 3 column16]
    getTerrainHeightAt_max [of "157 / 10" "163 / 10" column16]
  by (simp add: solid_column_def column16_def Math_round_def Let_def)

text \<open>
  A solid block at height \<open>- 20\<close> alone in its column: the query returns \<open>- 10\<close>, not the
  greatest \<open>y\<close> of the column's solid blocks.
\<close>

theorem getTerrainHeightAt_counterexample:
  "solid_column 0 0 [deep_stone] = [deep_stone] \<and>
   getTerrainHeightAt 0 0 [deep_stone] = - 10 \<and>
   Max (block_y ` set (solid_column 0 0 [deep_stone])) = - 20 \<and>
   getTerrainHeightAt 0 0 [deep_stone] \<noteq> Max (block_y ` set (solid_column 0 0 [deep_stone]))"
  by (simp add: solid_column_def getTerrainHeightAt_def deep_stone_def Math_round_def non_solid_def)

section \<open>Locomotion\<close>

lemma locomotion_keeps [simp]:
  "interaction (locomotion f s) = interaction s"
  "localBlocks (locomotion f s) = localBlocks s"
  "dwellTime (locomotion f s) = dwellTime s"
  "inventory (locomotion f s) = inventory s"
  "mode (locomotion f s) = mode s"
  "selectedBlockType (locomotion f s) = selectedBlockType s"
  by (simp_all add: locomotion_def Let_def)

lemma dwell_playerState [simp]: "playerState (fst (dwell f s)) = playerState s"
  by (simp add: dwell_def Let_def split: list.splits option.splits)

lemma zoneSize_pos: "0 < w \<Longrightarrow> 0 < zoneSize w"
  by (simp add: zoneSize_def)

lemma zones_disjoint: "0 < w \<Longrightarrow> zoneSize w < w - zoneSize w"
  by (simp add: zoneSize_def)

lemma turn_left:
  assumes "0 < w" and "mx < zoneSize w"
  shows "turn w mx rot - rot = rotSpeed / 2 + (rotSpeed / 2) * ((zoneSize w - mx) / zoneSize w)"
  using assms zoneSize_pos [of w] by (simp add: turn_def Let_def field_simps)

lemma turn_right:
  assumes "0 < w" and "w - zoneSize w < mx"
  shows "turn w mx rot - rot =
           - (rotSpeed / 2 + (rotSpeed / 2) * ((mx - (w - zoneSize w)) / zoneSize w))"
  using assms zones_disjoint [of w] zoneSize_pos [of w]
  by (simp add: turn_def Let_def field_simps)

lemma turn_centre:
  "zoneSize w \<le> mx \<Longrightarrow> mx \<le> w - zoneSize w \<Longrightarrow> turn w mx rot - rot = 0"
  by (simp add: turn_def)

lemma turn_left_rate:
  assumes "0 < w" and "mx < zoneSize w"
  shows "rotSpeed / 2 < turn w mx rot - rot"
proof -
  have "0 < (zoneSize w - mx) / zoneSize w" using assms zoneSize_pos [of w] by simp
  then have "0 < (rotSpeed / 2) * ((zoneSize w - mx) / zoneSize w)"
    by (intro mult_pos_pos) (simp_all add: rotSpeed_def)
  then show ?thesis unfolding turn_left [OF assms] by linarith
qed

lemma turn_right_rate:
  assumes "0 < w" and "w - zoneSize w < mx"
  shows "turn w mx rot - rot < - (rotSpeed / 2)"
proof -
  have "0 < (mx - (w - zoneSize w)) / zoneSize w" using assms zoneSize_pos [of w] by simp
  then have "0 < (rotSpeed / 2) * ((mx - (w - zoneSize w)) / zoneSize w)"
    by (intro mult_pos_pos) (simp_all add: rotSpeed_def)
  then show ?thesis unfolding turn_right [OF assms] by linarith
qed

lemma turn_left_mono:
  assumes "0 < w" and "a < b" and "b < zoneSize w"
  shows "\<bar>turn w b rot - rot\<bar> < \<bar>turn w a rot - rot\<bar>"
proof -
  have a: "a < zoneSize w" using assms by simp
  have "(zoneSize w - b) / zoneSize w < (zoneSize w - a) / zoneSize w"
    using assms zoneSize_pos [of w] by (simp add: divide_strict_right_mono)
  then have "(rotSpeed / 2) * ((zoneSize w - b) / zoneSize w)
           < (rotSpeed / 2) * ((zoneSize w - a) / zoneSize w)"
    by (intro mult_strict_left_mono) (simp_all add: rotSpeed_def)
  moreover have "0 < rotSpeed" by (simp add: rotSpeed_def)
  ultimately show ?thesis
    using turn_left_rate [OF assms(1) a, of rot] turn_left_rate [OF assms(1,3), of rot]
    unfolding turn_left [OF assms(1) a] turn_left [OF assms(1,3)] by linarith
qed

lemma turn_right_mono:
  assumes "0 < w" and "w - zoneSize w < a" and "a < b"
  shows "\<bar>turn w a rot - rot\<bar> < \<bar>turn w b rot - rot\<bar>"
proof -
  have b: "w - zoneSize w < b" using assms by simp
  have "(a - (w - zoneSize w)) / zoneSize w < (b - (w - zoneSize w)) / zoneSize w"
    using assms zoneSize_pos [of w] by (simp add: divide_strict_right_mono)
  then have "(rotSpeed / 2) * ((a - (w - zoneSize w)) / zoneSize w)
           < (rotSpeed / 2) * ((b - (w - zoneSize w)) / zoneSize w)"
    by (intro mult_strict_left_mono) (simp_all add: rotSpeed_def)
  moreover have "0 < rotSpeed" by (simp add: rotSpeed_def)
  ultimately show ?thesis
    using turn_right_rate [OF assms(1,2), of rot] turn_right_rate [OF assms(1) b, of rot]
    unfolding turn_right [OF assms(1,2)] turn_right [OF assms(1) b] by linarith
qed

text \<open>A turn is always committed: inside a zone it exceeds the 0.001 threshold.\<close>

lemma rotation_committed:
  assumes "0 < innerWidth f"
  shows "rotation (playerState (fst (animate f s))) = nextRot f s"
proof -
  let ?w = "innerWidth f" and ?mx = "mouse_x f" and ?r = "rotation (playerState s)"
  have small: "nextRot f s = ?r" if "\<bar>nextRot f s - ?r\<bar> \<le> 1 / 1000"
  proof (rule ccontr)
    assume ne: "nextRot f s \<noteq> ?r"
    then have "?mx < zoneSize ?w \<or> ?w - zoneSize ?w < ?mx"
      by (auto simp: nextRot_def turn_def split: if_splits)
    then have "rotSpeed / 2 < \<bar>turn ?w ?mx ?r - ?r\<bar>"
    proof
      assume "?mx < zoneSize ?w"
      from turn_left_rate [OF assms this, of ?r] show ?thesis by linarith
    next
      assume "?w - zoneSize ?w < ?mx"
      from turn_right_rate [OF assms this, of ?r] show ?thesis by linarith
    qed
    with that show False by (simp add: nextRot_def rotSpeed_def)
  qed
  have "rotation (playerState (locomotion f s)) = nextRot f s"
    using small by (auto simp: locomotion_def Let_def)
  then show ?thesis by (simp add: animate_def)
qed

text \<open>
  C7. In a window of positive width: the rotation change of a frame is the change \<open>turn\<close>
  computes from the pointer's horizontal position; it is exactly zero in the central band
  outside both turn zones; inside a zone it is never zero (more than the base rate
  \<open>rotSpeed / 2\<close> in magnitude, positive on the left, negative on the right), its magnitude
  is the base rate plus \<open>rotSpeed / 2\<close> times the penetration depth over the zone width, and
  it grows strictly as the pointer moves towards the screen edge.
\<close>

theorem turn_rate:
  assumes "0 < w"
  shows "(innerWidth f = w \<longrightarrow>
            rotation (playerState (fst (animate f s))) - rotation (playerState s) =
              turn w (mouse_x f) (rotation (playerState s)) - rotation (playerState s)) \<and>
         (zoneSize w \<le> mx \<and> mx \<le> w - zoneSize w \<longrightarrow> turn w mx rot - rot = 0) \<and>
         (mx < zoneSize w \<longrightarrow>
            turn w mx rot - rot =
              rotSpeed / 2 + (rotSpeed / 2) * ((zoneSize w - mx) / zoneSize w) \<and>
            rotSpeed / 2 < turn w mx rot - rot) \<and>
         (w - zoneSize w < mx \<longrightarrow>
            turn w mx rot - rot =
              - (rotSpeed / 2 + (rotSpeed / 2) * ((mx - (w - zoneSize w)) / zoneSize w)) \<and>
            turn w mx rot - rot < - (rotSpeed / 2)) \<and>
         (a < b \<and> b < zoneSize w \<longrightarrow> \<bar>turn w b rot - rot\<bar> < \<bar>turn w a rot - rot\<bar>) \<and>
         (w - zoneSize w < a \<and> a < b \<longrightarrow> \<bar>turn w a rot - rot\<bar> < \<bar>turn w b rot - rot\<bar>)"
proof (intro conjI impI)
  assume "innerWidth f = w"
  then show "rotation (playerState (fst (animate f s))) - rotation (playerState s) =
              turn w (mouse_x f) (rotation (playerState s)) - rotation (playerState s)"
    using rotation_committed [of f s] assms by (simp add: nextRot_def)
next
  assume "zoneSize w \<le> mx \<and> mx \<le> w - zoneSize w"
  then show "turn w mx rot - rot = 0" by (simp add: turn_centre)
next
  assume h: "mx < zoneSize w"
  show "turn w mx rot - rot = rotSpeed / 2 + (rotSpeed / 2) * ((zoneSize w - mx) / zoneSize w)"
    using assms h by (rule turn_left)
  show "rotSpeed / 2 < turn w mx rot - rot" using assms h by (rule turn_left_rate)
next
  assume h: "w - zoneSize w < mx"
  show "turn w mx rot - rot =
          - (rotSpeed / 2 + (rotSpeed / 2) * ((mx - (w - zoneSize w)) / zoneSize w))"
    using assms h by (rule turn_right)
  show "turn w mx rot - rot < - (rotSpeed / 2)" using assms h by (rule turn_right_rate)
next
  assume "a < b \<and> b < zoneSize w"
  then show "\<bar>turn w b rot - rot\<bar> < \<bar>turn w a rot - rot\<bar>"
    using turn_left_mono [OF assms, of a b rot] by simp
next
  assume "w - zoneSize w < a \<and> a < b"
  then show "\<bar>turn w a rot - rot\<bar> < \<bar>turn w b rot - rot\<bar>"
    using turn_right_mono [OF assms, of a b rot] by simp
qed

theorem turn_rate_witness:
  "(0::real) < 1000 \<and> innerWidth (idle_frame 1) = 1000 \<and>
   rotation (playerState (fst (animate (idle_frame 1) scene0))) = 0 \<and>
   zoneSize 1000 = 200 \<and> turn 1000 500 0 - 0 = 0 \<and>
   turn 1000 100 0 - 0 = 3 / 500 \<and> turn 1000 0 0 - 0 = 1 / 125 \<and>
   turn 1000 900 0 - 0 = - (3 / 500) \<and> turn 1000 1000 0 - 0 = - (1 / 125) \<and>
   \<bar>turn 1000 150 0 - 0\<bar> < \<bar>turn 1000 50 0 - 0\<bar> \<and>
   \<bar>turn 1000 850 0 - 0\<bar> < \<bar>turn 1000 950 0 - 0\<bar>"
proof -
  have w: "(0::real) < 1000" by simp
  note t = turn_rate [OF w]
  show ?thesis
    using t [of "idle_frame 1" scene0 500 0 50 150] t [of "idle_frame 1" scene0 100 0 850 950]
      t [of "idle_frame 1" scene0 900 0 850 950]
    by (simp add: zoneSize_def rotSpeed_def idle_frame_def scene_defs turn_def Let_def)
qed

lemma nextPos_dwellTime [simp]:
  "nextPos f (s\<lparr>dwellTime := d\<rparr>) = nextPos f s"
  "nextRot f (s\<lparr>dwellTime := d\<rparr>) = nextRot f s"
  by (simp_all add: nextPos_def nextRot_def)

lemma walk_step_large:
  "1 / 1000 < \<bar>sin r * speed\<bar> \<or> 1 / 1000 < \<bar>cos r * speed\<bar>"
proof (rule ccontr)
  assume "\<not> ?thesis"
  then have s: "\<bar>sin r\<bar> \<le> 1 / 40" and c: "\<bar>cos r\<bar> \<le> 1 / 40"
    by (simp_all add: speed_def abs_mult)
  have "(sin r)\<^sup>2 \<le> (1 / 40)\<^sup>2" using s by (intro abs_le_square_iff [THEN iffD1]) simp
  moreover have "(cos r)\<^sup>2 \<le> (1 / 40)\<^sup>2" using c by (intro abs_le_square_iff [THEN iffD1]) simp
  ultimately have "(sin r)\<^sup>2 + (cos r)\<^sup>2 \<le> 2 * (1 / 40)\<^sup>2" by linarith
  then have "(1::real) \<le> 2 * (1 / 40)\<^sup>2" by (simp only: sin_cos_squared_add)
  then show False by (simp add: power2_eq_square)
qed

text \<open>A walking step is always committed: it moves the player by 0.04 in the plane.\<close>

lemma walking_commits:
  assumes "isWalking (playerState s)"
  shows "position (playerState (locomotion f s)) = nextPos f s"
    and "rotation (playerState (locomotion f s)) = nextRot f s"
proof -
  have x: "vec_x (nextPos f s) - vec_x (position (playerState s)) = sin (nextRot f s) * speed"
    and z: "vec_z (nextPos f s) - vec_z (position (playerState s)) = cos (nextRot f s) * speed"
    using assms by (simp_all add: nextPos_def walk_def Let_def)
  have "1 / 1000 < \<bar>vec_x (nextPos f s) - vec_x (position (playerState s))\<bar> \<or>
        1 / 1000 < \<bar>vec_z (nextPos f s) - vec_z (position (playerState s))\<bar>"
    unfolding x z by (rule walk_step_large)
  then show "position (playerState (locomotion f s)) = nextPos f s"
    and "rotation (playerState (locomotion f s)) = nextRot f s"
    by (auto simp: locomotion_def Let_def)
qed

text \<open>
  C8 (as amended). The move speed and the turn speed of the locomotion update are the
  constants 0.04 and 0.008 of the frame loop, not the settings' \<open>moveSpeed\<close> and \<open>turnSpeed\<close>:
  a frame's result is the same whatever these two settings are; when walking, the player
  moves by 0.04 along the facing direction the frame has just turned to; and inside a turn
  zone the rotation changes by 0.008 scaled by one half plus half the penetration.
\<close>

theorem speeds_are_constants:
  "App_frame (settings\<lparr>moveSpeed := a, turnSpeed := b\<rparr>) f s = App_frame settings f s \<and>
   (0 < innerWidth f \<and> isWalking (playerState s) \<longrightarrow>
      vec_x (nextPos f s) = vec_x (position (playerState s)) + sin (nextRot f s) * (4 / 100) \<and>
      vec_z (nextPos f s) = vec_z (position (playerState s)) + cos (nextRot f s) * (4 / 100) \<and>
      position (playerState (fst (App_frame settings f s))) = nextPos f s \<and>
      rotation (playerState (fst (App_frame settings f s))) = nextRot f s) \<and>
   (0 < innerWidth f \<and> mouse_x f < zoneSize (innerWidth f) \<longrightarrow>
      nextRot f s - rotation (playerState s) =
        (8 / 1000) * (1 / 2 + (1 - mouse_x f / zoneSize (innerWidth f)) * (1 / 2))) \<and>
   (0 < innerWidth f \<and> innerWidth f - zoneSize (innerWidth f) < mouse_x f \<longrightarrow>
      nextRot f s - rotation (playerState s) =
        - ((8 / 1000) * (1 / 2 +
             ((mouse_x f - (innerWidth f - zoneSize (innerWidth f))) / zoneSize (innerWidth f))
               * (1 / 2))))"
proof (intro conjI impI)
  show "App_frame (settings\<lparr>moveSpeed := a, turnSpeed := b\<rparr>) f s = App_frame settings f s"
    by (simp add: App_frame_def)
next
  assume "0 < innerWidth f \<and> isWalking (playerState s)"
  then have w: "isWalking (playerState s)" by simp
  show "vec_x (nextPos f s) = vec_x (position (playerState s)) + sin (nextRot f s) * (4 / 100)"
    and "vec_z (nextPos f s) = vec_z (position (playerState s)) + cos (nextRot f s) * (4 / 100)"
    using w by (simp_all add: nextPos_def walk_def speed_def Let_def)
  have w': "isWalking (playerState (s\<lparr>dwellTime := settings_dwellTime settings\<rparr>))"
    using w by simp
  show "position (playerState (fst (App_frame settings f s))) = nextPos f s"
    using walking_commits(1) [OF w', of f] by (simp add: App_frame_def animate_def)
  show "rotation (playerState (fst (App_frame settings f s))) = nextRot f s"
    using walking_commits(2) [OF w', of f] by (simp add: App_frame_def animate_def)
next
  assume "0 < innerWidth f \<and> mouse_x f < zoneSize (innerWidth f)"
  then show "nextRot f s - rotation (playerState s) =
        (8 / 1000) * (1 / 2 + (1 - mouse_x f / zoneSize (innerWidth f)) * (1 / 2))"
    by (simp add: nextRot_def turn_def rotSpeed_def Let_def)
next
  assume h: "0 < innerWidth f \<and> innerWidth f - zoneSize (innerWidth f) < mouse_x f"
  then have "\<not> mouse_x f < zoneSize (innerWidth f)" by (simp add: zoneSize_def)
  with h show "nextRot f s - rotation (playerState s) =
        - ((8 / 1000) * (1 / 2 +
             ((mouse_x f - (innerWidth f - zoneSize (innerWidth f))) / zoneSize (innerWidth f))
               * (1 / 2)))"
    by (simp add: nextRot_def turn_def rotSpeed_def Let_def)
qed

theorem speeds_are_constants_witness:
  "App_frame (INITIAL_SETTINGS\<lparr>moveSpeed := 1, turnSpeed := 1\<rparr>) (idle_frame 1) walking_scene =
     App_frame INITIAL_SETTINGS (idle_frame 1) walking_scene \<and>
   0 < innerWidth (idle_frame 1) \<and> isWalking (playerState walking_scene) \<and>
   position (playerState (fst (App_frame INITIAL_SETTINGS (idle_frame 1) walking_scene))) =
     \<lparr>vec_x = 16, vec_y = 29 / 10, vec_z = 16 + 4 / 100\<rparr> \<and>
   0 < innerWidth ((idle_frame 1)\<lparr>mouse_x := 0\<rparr>) \<and>
   mouse_x ((idle_frame 1)\<lparr>mouse_x := 0\<rparr>) < zoneSize (innerWidth ((idle_frame 1)\<lparr>mouse_x := 0\<rparr>)) \<and>
   nextRot ((idle_frame 1)\<lparr>mouse_x := 0\<rparr>) scene0 - rotation (playerState scene0) = 8 / 1000 \<and>
   0 < innerWidth ((idle_frame 1)\<lparr>mouse_x := 1000\<rparr>) \<and>
   innerWidth ((idle_frame 1)\<lparr>mouse_x := 1000\<rparr>)
     - zoneSize (innerWidth ((idle_frame 1)\<lparr>mouse_x := 1000\<rparr>))
     < mouse_x ((idle_frame 1)\<lparr>mouse_x := 1000\<rparr>) \<and>
   nextRot ((idle_frame 1)\<lparr>mouse_x := 1000\<rparr>) scene0 - rotation (playerState scene0) =
     - (8 / 1000)"
proof -
  have n: "nextPos (idle_frame 1) walking_scene = \<lparr>vec_x = 16, vec_y = 29 / 10, vec_z = 16 + 4 / 100\<rparr>"
    by (simp add: walking_scene_def frame_defs scene_defs loco_defs speed_def Let_def)
  show ?thesis
    using speeds_are_constants [where settings = INITIAL_SETTINGS and a = 1 and b = 1
          and f = "idle_frame 1" and s = walking_scene]
      speeds_are_constants [where settings = INITIAL_SETTINGS and a = 1 and b = 1
          and f = "(idle_frame 1)\<lparr>mouse_x := 0\<rparr>" and s = scene0]
      speeds_are_constants [where settings = INITIAL_SETTINGS and a = 1 and b = 1
          and f = "(idle_frame 1)\<lparr>mouse_x := 1000\<rparr>" and s = scene0]
      n
    by (simp add: walking_scene_def idle_frame_def scene_defs zoneSize_def)
qed

text \<open>
  With the initial settings (move speed 0.1, turn speed 0.03) a walking frame moves the
  player by 0.04, and a frame with the pointer on the left screen edge turns it by 0.008.
\<close>

theorem speeds_counterexample:
  "moveSpeed INITIAL_SETTINGS = 1 / 10 \<and> turnSpeed INITIAL_SETTINGS = 3 / 100 \<and>
   position (playerState walking_scene) = \<lparr>vec_x = 16, vec_y = 3, vec_z = 16\<rparr> \<and>
   rotation (playerState walking_scene) = 0 \<and>
   position (playerState (fst (App_frame INITIAL_SETTINGS (idle_frame 1) walking_scene))) =
     \<lparr>vec_x = 16, vec_y = 29 / 10, vec_z = 16 + 4 / 100\<rparr> \<and>
   vec_z (position (playerState (fst (App_frame INITIAL_SETTINGS (idle_frame 1) walking_scene))))
     - vec_z (position (playerState walking_scene)) \<noteq> moveSpeed INITIAL_SETTINGS \<and>
   position (playerState
     (fst (App_frame (INITIAL_SETTINGS\<lparr>moveSpeed := 1\<rparr>) (idle_frame 1) walking_scene))) =
     \<lparr>vec_x = 16, vec_y = 29 / 10, vec_z = 16 + 4 / 100\<rparr> \<and>
   rotation (playerState
     (fst (App_frame INITIAL_SETTINGS ((idle_frame 1)\<lparr>mouse_x := 0\<rparr>) scene0))) = 8 / 1000 \<and>
   rotation (playerState
     (fst (App_frame (INITIAL_SETTINGS\<lparr>turnSpeed := 1\<rparr>) ((idle_frame 1)\<lparr>mouse_x := 0\<rparr>) scene0)))
     = 8 / 1000"
  by (simp add: App_frame_def INITIAL_SETTINGS_def walking_scene_def frame_defs scene_defs
      loco_defs dwell_defs speed_def rotSpeed_def Let_def)

section \<open>Terrain following\<close>

lemma targetY_max:
  "targetY blocks pos =
     max (if blocks \<noteq> [] then getTerrainHeightAt (vec_x pos) (vec_z pos) blocks else - 10) 1 + 1"
  by (simp add: targetY_def Let_def max_def)

lemma vertical_below: "py < T \<Longrightarrow> vertical T py = min (py + 2 / 10) T"
  by (simp add: vertical_def Let_def min_def)

lemma vertical_above: "T < py \<Longrightarrow> vertical T py = max (py - 1 / 10) T"
  by (simp add: vertical_def Let_def max_def)

lemma vertical_at: "vertical T T = T"
  by (simp add: vertical_def)

lemma vertical_dist: "\<bar>vertical T py - T\<bar> \<le> max 0 (\<bar>py - T\<bar> - 1 / 10)"
  by (simp add: vertical_def Let_def)

lemma vertical_small_move: "\<bar>vertical T py - py\<bar> \<le> 1 / 1000 \<Longrightarrow> \<bar>py - T\<bar> \<le> 1 / 1000"
  by (simp add: vertical_def Let_def split: if_splits)

lemma vertical_near: "\<bar>py - T\<bar> \<le> 1 / 1000 \<Longrightarrow> vertical T py = T"
  unfolding vertical_def Let_def by (auto simp: abs_if split: if_splits)

lemma nextPos_y: "vec_y (nextPos f s) = vertical (frame_targetY f s) (player_y s)"
  by (simp add: nextPos_def frame_targetY_def player_y_def walk_def Let_def)

lemma player_y_step:
  "player_y (fst (animate f s)) = vertical (frame_targetY f s) (player_y s) \<or>
   player_y (fst (animate f s)) = player_y s \<and>
     \<bar>vertical (frame_targetY f s) (player_y s) - player_y s\<bar> \<le> 1 / 1000"
proof -
  have "player_y (fst (animate f s)) = player_y (locomotion f s)"
    by (simp add: animate_def player_y_def)
  moreover have "player_y (locomotion f s) = vec_y (nextPos f s) \<or>
     player_y (locomotion f s) = player_y s \<and> \<bar>vec_y (nextPos f s) - player_y s\<bar> \<le> 1 / 1000"
    by (auto simp: locomotion_def Let_def player_y_def)
  ultimately show ?thesis by (simp add: nextPos_y)
qed

lemma player_y_step_dist:
  assumes "frame_targetY f s = T"
  shows "\<bar>player_y (fst (animate f s)) - T\<bar> \<le> max (1 / 1000) (\<bar>player_y s - T\<bar> - 1 / 10)"
  using player_y_step [of f s] vertical_dist [of T "player_y s"]
    vertical_small_move [of T "player_y s"] assms
  by auto

lemma max_chain:
  fixes a b c e n k :: real
  assumes "a \<le> max e (b - n)" and "b \<le> max e (c - k)" and "0 \<le> n"
  shows "a \<le> max e (c - (n + k))"
proof (cases "b \<le> e")
  case True
  with assms(1,3) have "a \<le> e" by (auto simp: le_max_iff_disj)
  then show ?thesis by (simp add: le_max_iff_disj)
next
  case False
  with assms(2) have "b \<le> c - k" by (simp add: le_max_iff_disj)
  with assms(1) have "a \<le> e \<or> a \<le> c - (n + k)" by (auto simp: le_max_iff_disj)
  then show ?thesis by (simp add: le_max_iff_disj)
qed

lemma run_dist:
  "target_fixed T fs s \<Longrightarrow>
   \<bar>player_y (run fs s) - T\<bar> \<le> max (1 / 1000) (\<bar>player_y s - T\<bar> - real (length fs) / 10)"
proof (induction fs arbitrary: s)
  case Nil
  show ?case by simp
next
  case (Cons f fs)
  from Cons.prems have t: "frame_targetY f s = T" and r: "target_fixed T fs (fst (animate f s))"
    by simp_all
  have "\<bar>player_y (run fs (fst (animate f s))) - T\<bar>
      \<le> max (1 / 1000) (\<bar>player_y s - T\<bar> - (real (length fs) / 10 + 1 / 10))"
    by (rule max_chain [OF Cons.IH [OF r] player_y_step_dist [OF t]]) simp
  moreover have "real (length (f # fs)) / 10 = real (length fs) / 10 + 1 / 10" by simp
  ultimately show ?case by (simp only: run.simps)
qed

text \<open>
  C6 (as amended). For every frame the target height is \<open>max groundHeight 1 + 1\<close>, and the
  vertical update moves \<open>y\<close> up by 0.2 when below the target, never past it, or down by 0.1
  when above, never past it, and leaves it at the target. So a tick that starts at or below
  the target never ends above it, and a tick that starts above never rises nor falls below
  it (a player that starts above the target, as the initial one does, stays above it while
  it descends). While the target height stays at \<open>T\<close>, after \<open>10 * |y - T|\<close> ticks the height
  the frame computes is exactly \<open>T\<close>, and the stored player height is within the 0.001
  threshold under which the frame does not store a change.
\<close>

theorem vertical_follow:
  "targetY blocks pos =
     max (if blocks \<noteq> [] then getTerrainHeightAt (vec_x pos) (vec_z pos) blocks else - 10) 1 + 1 \<and>
   (0 < innerWidth f \<longrightarrow> vec_y (nextPos f s) = vertical (frame_targetY f s) (player_y s)) \<and>
   (py < T \<longrightarrow> vertical T py = min (py + 2 / 10) T) \<and>
   (T < py \<longrightarrow> vertical T py = max (py - 1 / 10) T) \<and>
   (py = T \<longrightarrow> vertical T py = T) \<and>
   (py \<le> T \<longrightarrow> vertical T py \<le> T) \<and>
   (T \<le> py \<longrightarrow> T \<le> vertical T py \<and> vertical T py \<le> py) \<and>
   (window_ok fs \<and> target_fixed T fs s \<and> 10 * \<bar>player_y s - T\<bar> \<le> real (length fs) \<longrightarrow>
      \<bar>player_y (run fs s) - T\<bar> \<le> 1 / 1000 \<and> vertical T (player_y (run fs s)) = T)"
proof (intro conjI impI)
  assume h: "window_ok fs \<and> target_fixed T fs s \<and>
    10 * \<bar>player_y s - T\<bar> \<le> real (length fs)"
  then show d: "\<bar>player_y (run fs s) - T\<bar> \<le> 1 / 1000"
    using run_dist [of T fs s] by (simp add: max_def split: if_splits)
  show "vertical T (player_y (run fs s)) = T" using d by (rule vertical_near)
qed (simp_all add: targetY_max nextPos_y vertical_below vertical_above vertical_at,
     simp_all add: vertical_def Let_def)

theorem vertical_follow_witness:
  "targetY column16 \<lparr>vec_x = 16, vec_y = 3, vec_z = 16\<rparr> = 2 \<and>
   0 < innerWidth (idle_frame 1) \<and>
   vec_y (nextPos (idle_frame 1) scene0) = 29 / 10 \<and>
   (1::real) < 2 \<and> vertical 2 1 = 6 / 5 \<and> vertical 2 (19 / 10) = 2 \<and>
   (2::real) < 3 \<and> vertical 2 3 = 29 / 10 \<and> vertical 2 (41 / 20) = 2 \<and>
   vertical 2 2 = 2 \<and>
   window_ok [idle_frame 1, idle_frame 2, idle_frame 3] \<and>
   target_fixed 2 [idle_frame 1, idle_frame 2, idle_frame 3] (scene_at (9 / 4)) \<and>
   10 * \<bar>player_y (scene_at (9 / 4)) - 2\<bar> \<le> real (length [idle_frame 1, idle_frame 2, idle_frame 3]) \<and>
   player_y (run [idle_frame 1, idle_frame 2, idle_frame 3] (scene_at (9 / 4))) = 2"
proof -
  let ?fs = "[idle_frame 1, idle_frame 2, idle_frame 3]"
  have t: "target_fixed 2 ?fs (scene_at (9 / 4))"
    by (simp add: scene_at_def frame_targetY_def frame_defs scene_defs loco_defs dwell_defs Let_def)
  have l: "10 * \<bar>player_y (scene_at (9 / 4)) - 2\<bar> \<le> real (length ?fs)"
    by (simp add: scene_at_def player_y_def scene_defs)
  have w: "window_ok ?fs" by (simp add: window_ok_def idle_frame_def)
  have r: "player_y (run ?fs (scene_at (9 / 4))) = 2"
    by (simp add: scene_at_def player_y_def frame_defs scene_defs loco_defs dwell_defs Let_def)
  note a = vertical_follow [of column16 "\<lparr>vec_x = 16, vec_y = 3, vec_z = 16\<rparr>"
      "idle_frame 1" "scene_at (9 / 4)" 1 2 ?fs]
  note b = vertical_follow [of "[]" "\<lparr>vec_x = 16, vec_y = 3, vec_z = 16\<rparr>"
      "idle_frame 1" scene0 3 2 "[]"]
  note c = vertical_follow [of "[]" "\<lparr>vec_x = 16, vec_y = 3, vec_z = 16\<rparr>"
      "idle_frame 1" scene0 2 2 "[]"]
  have "vertical 2 (player_y (run ?fs (scene_at (9 / 4)))) = 2" using a t l w by blast
  then show ?thesis
    using a b c t l r w
    by (simp add: getTerrainHeightAt_def Math_round_def non_solid_def
        frame_targetY_def player_y_def frame_defs scene_defs nextRot_def turn_def zoneSize_def
        walk_def targetY_def vertical_def Let_def)
qed

text \<open>
  The first frame of the application: the player starts at height 3 over a column whose
  target height is 2, and is at 2.9 after the frame, 0.9 above the target. And a player
  0.0005 above the target is never stored at the target.
\<close>

theorem vertical_follow_counterexample:
  "player_y scene0 = 3 \<and> frame_targetY (idle_frame 1) scene0 = 2 \<and>
   player_y (fst (animate (idle_frame 1) scene0)) = 29 / 10 \<and>
   \<not> player_y (fst (animate (idle_frame 1) scene0)) \<le> frame_targetY (idle_frame 1) scene0 + 2 / 10 \<and>
   window_ok [idle_frame 1, idle_frame 2, idle_frame 3] \<and>
   target_fixed 2 [idle_frame 1, idle_frame 2, idle_frame 3] (scene_at (20005 / 10000)) \<and>
   player_y (run [idle_frame 1, idle_frame 2, idle_frame 3] (scene_at (20005 / 10000))) =
     20005 / 10000 \<and>
   player_y (run [idle_frame 1, idle_frame 2, idle_frame 3] (scene_at (20005 / 10000))) \<noteq> 2"
  by (simp add: scene_at_def frame_targetY_def player_y_def window_ok_def frame_defs scene_defs
      loco_defs dwell_defs Let_def)

section \<open>Dwell\<close>

lemma progress_full: "0 < d \<Longrightarrow> (1 \<le> min (e / d) (1::real)) = (d \<le> e)"
  by (simp add: min_def field_simps)

lemma progress_part: "0 < d \<Longrightarrow> \<not> d \<le> e \<Longrightarrow> min (e / d) (1::real) = e / d"
  by (simp add: min_def field_simps)

lemma timer_start_pos:
  "timer_ok s \<Longrightarrow> 0 < now_acquire f \<Longrightarrow> 0 < timer_start i f s"
  by (auto simp: timer_ok_def timer_start_def split: option.splits)

lemma dwell_resolved:
  assumes "resolves i f s" and "timer_ok s" and "0 < dwellTime s" and "0 < now_acquire f"
  shows "snd (dwell f s) =
           (if dwellTime s \<le> now_elapsed f - timer_start i f s
            then [HoverChange True 1, PerformAction i, HoverChange False 0]
            else [HoverChange True ((now_elapsed f - timer_start i f s) / dwellTime s)])"
    and "targetId (interaction (fst (dwell f s))) = Some i"
    and "startTime (interaction (fst (dwell f s))) =
           Some (if dwellTime s \<le> now_elapsed f - timer_start i f s
                 then now_restart f else timer_start i f s)"
    and "faceNormal (interaction (fst (dwell f s))) =
           (if targetId (interaction s) = Some i then faceNormal (interaction s)
            else face_normal (hd (intersects f)))"
    and "dwellTime (fst (dwell f s)) = dwellTime s"
    and "fst (dwell f s) =
           (let s1 = (if targetId (interaction s) = Some i then s
                      else s\<lparr>interaction := (interaction s)\<lparr>targetId := Some i,
                                   startTime := Some (now_acquire f),
                                   faceNormal := face_normal (hd (intersects f))\<rparr>\<rparr>)
            in if dwellTime s \<le> now_elapsed f - timer_start i f s
               then (performAction (dateNow f) i s1)
                      \<lparr>interaction := (interaction s1)\<lparr>startTime := Some (now_restart f)\<rparr>\<rparr>
               else s1)"
  using assms
  by (auto simp: dwell_def resolves_def timer_ok_def timer_start_def Let_def
      progress_full progress_part split: list.splits option.splits)

text \<open>
  Every frame keeps the timer running properly, whatever the ray hits, as long as the clock
  readings are positive; and the timer of a scene with no target is running properly.
\<close>

lemma timer_ok_animate:
  assumes "timer_ok s" and "0 < now_acquire f" and "0 < now_restart f"
  shows "timer_ok (fst (animate f s))"
  using assms
  by (auto simp: animate_def dwell_def timer_ok_def Let_def split: list.splits option.splits)

lemma animate_resolved:
  assumes "resolves i f s" and "timer_ok s" and "0 < dwellTime s" and "0 < now_acquire f"
  shows "snd (animate f s) =
           (if dwellTime s \<le> now_elapsed f - timer_start i f s
            then [HoverChange True 1, PerformAction i, HoverChange False 0]
            else [HoverChange True ((now_elapsed f - timer_start i f s) / dwellTime s)])"
    and "targetId (interaction (fst (animate f s))) = Some i"
    and "startTime (interaction (fst (animate f s))) =
           Some (if dwellTime s \<le> now_elapsed f - timer_start i f s
                 then now_restart f else timer_start i f s)"
    and "faceNormal (interaction (fst (animate f s))) =
           (if targetId (interaction s) = Some i then faceNormal (interaction s)
            else face_normal (hd (intersects f)))"
    and "dwellTime (fst (animate f s)) = dwellTime s"
proof -
  have r: "resolves i f (locomotion f s)"
    using assms(1) by (simp add: resolves_def split: list.splits)
  have t: "timer_ok (locomotion f s)"
    using assms(2) by (simp add: timer_ok_def split: option.splits)
  have d: "0 < dwellTime (locomotion f s)" using assms(3) by simp
  have ts: "timer_start i f (locomotion f s) = timer_start i f s" by (simp add: timer_start_def)
  note dr = dwell_resolved [OF r t d assms(4), unfolded ts]
  show "snd (animate f s) =
           (if dwellTime s \<le> now_elapsed f - timer_start i f s
            then [HoverChange True 1, PerformAction i, HoverChange False 0]
            else [HoverChange True ((now_elapsed f - timer_start i f s) / dwellTime s)])"
    using dr(1) by (simp add: animate_def)
  show "targetId (interaction (fst (animate f s))) = Some i"
    using dr(2) by (simp add: animate_def)
  show "startTime (interaction (fst (animate f s))) =
           Some (if dwellTime s \<le> now_elapsed f - timer_start i f s
                 then now_restart f else timer_start i f s)"
    using dr(3) by (simp add: animate_def)
  show "faceNormal (interaction (fst (animate f s))) =
           (if targetId (interaction s) = Some i then faceNormal (interaction s)
            else face_normal (hd (intersects f)))"
    using dr(4) by (simp add: animate_def)
  show "dwellTime (fst (animate f s)) = dwellTime s"
    using dr(5) by (simp add: animate_def)
qed

lemma action_calls_resolved:
  assumes "resolves i f s" and "timer_ok s" and "0 < dwellTime s" and "0 < now_acquire f"
  shows "action_calls (snd (animate f s)) =
           (if dwellTime s \<le> now_elapsed f - timer_start i f s then [i] else [])"
  by (simp add: animate_resolved(1) [OF assms])

lemma reported_resolved:
  assumes "resolves i f s" and "timer_ok s" and "0 < dwellTime s" and "0 < now_acquire f"
  shows "reported_progress (snd (animate f s)) =
           Some (min ((now_elapsed f - timer_start i f s) / dwellTime s) 1)"
  using assms(3) by (simp add: animate_resolved(1) [OF assms] min_def field_simps)

text \<open>What a held frame hands to the next one.\<close>

lemma held_step:
  assumes "gaze_held i (f # fs) s" and "clock_ok t (f # fs)" and "0 < dwellTime s"
    and "timer_ok s"
  shows "gaze_held i fs (fst (animate f s))"
    and "clock_ok (now_restart f) fs"
    and "0 < dwellTime (fst (animate f s))"
    and "dwellTime (fst (animate f s)) = dwellTime s"
    and "timer_ok (fst (animate f s))"
    and "resolves i f s" and "0 < now_acquire f"
proof -
  show r: "resolves i f s" and a: "0 < now_acquire f" using assms(1,2) by simp_all
  note st = animate_resolved [OF r assms(4) assms(3) a]
  show "gaze_held i fs (fst (animate f s))" using assms(1) by simp
  show "clock_ok (now_restart f) fs" using assms(2) by simp
  show "dwellTime (fst (animate f s)) = dwellTime s" by (rule st(5))
  then show "0 < dwellTime (fst (animate f s))" using assms(3) by simp
  have "0 < timer_start i f s" using assms(4) a by (rule timer_start_pos)
  moreover have "0 < now_restart f" using assms(2) by simp
  ultimately show "timer_ok (fst (animate f s))"
    by (simp add: timer_ok_def st(2) st(3))
qed

lemma timer_start_next:
  assumes "resolves i f s" and "timer_ok s" and "0 < dwellTime s" and "0 < now_acquire f"
  shows "timer_start i g (fst (animate f s)) =
           (if dwellTime s \<le> now_elapsed f - timer_start i f s
            then now_restart f else timer_start i f s)"
  by (simp add: timer_start_def animate_resolved(2,3) [OF assms])

lemma held_frames:
  assumes "gaze_held i fs s" and "clock_ok t fs" and "0 < dwellTime s" and "timer_ok s"
    and "k < length fs"
  shows "action_calls (events fs s ! k) =
           (if dwellTime s \<le> now_elapsed (fs ! k) - timer_start i (fs ! k) (run (take k fs) s)
            then [i] else []) \<and>
         targetId (interaction (run (take (Suc k) fs) s)) = Some i \<and>
         startTime (interaction (run (take (Suc k) fs) s)) =
           Some (if dwellTime s \<le> now_elapsed (fs ! k) - timer_start i (fs ! k) (run (take k fs) s)
                 then now_restart (fs ! k) else timer_start i (fs ! k) (run (take k fs) s))"
  using assms
proof (induction fs arbitrary: s t k)
  case Nil
  then show ?case by simp
next
  case (Cons f fs)
  note hs = held_step [OF Cons.prems(1-4)]
  note st = animate_resolved [OF hs(6) Cons.prems(4) Cons.prems(3) hs(7)]
  show ?case
  proof (cases k)
    case 0
    then show ?thesis
      by (simp add: action_calls_resolved [OF hs(6) Cons.prems(4) Cons.prems(3) hs(7)] st(2) st(3))
  next
    case (Suc j)
    then have j: "j < length fs" using Cons.prems(5) by simp
    show ?thesis using Cons.IH [OF hs(1) hs(2) hs(3) hs(5) j] Suc by (simp add: hs(4))
  qed
qed

lemma fire_times_bound:
  assumes "gaze_held i (f # fs) s" and "clock_ok t (f # fs)" and "0 < dwellTime s"
    and "timer_ok s"
  shows "(\<forall>x \<in> set (fire_times (f # fs) s). timer_start i f s + dwellTime s \<le> x) \<and>
         sorted_wrt (\<lambda>a b. a + dwellTime s \<le> b) (fire_times (f # fs) s)"
  using assms
proof (induction fs arbitrary: f s t)
  case Nil
  note hs = held_step [OF Nil.prems(1-4)]
  note ac = action_calls_resolved [OF hs(6) Nil.prems(4) Nil.prems(3) hs(7)]
  show ?case by (simp add: ac)
next
  case (Cons g fs)
  note hs = held_step [OF Cons.prems(1-4)]
  note ac = action_calls_resolved [OF hs(6) Cons.prems(4) Cons.prems(3) hs(7)]
  note nx = timer_start_next [OF hs(6) Cons.prems(4) Cons.prems(3) hs(7), of g]
  note ih = Cons.IH [OF hs(1) hs(2) hs(3) hs(5), unfolded hs(4) nx]
  have clk: "now_elapsed f \<le> now_restart f" using Cons.prems(2) by simp
  let ?rest = "fire_times (g # fs) (fst (animate f s))"
  have ft: "fire_times (f # g # fs) s =
      (if dwellTime s \<le> now_elapsed f - timer_start i f s then [now_elapsed f] else []) @ ?rest"
    by (simp add: ac)
  show ?case
  proof (cases "dwellTime s \<le> now_elapsed f - timer_start i f s")
    case True
    with ih have b: "\<forall>x \<in> set ?rest. now_restart f + dwellTime s \<le> x"
      and srt: "sorted_wrt (\<lambda>a b. a + dwellTime s \<le> b) ?rest" by simp_all
    have "\<forall>x \<in> set ?rest. now_elapsed f + dwellTime s \<le> x"
      using b clk by fastforce
    moreover have "\<forall>x \<in> set ?rest. timer_start i f s + dwellTime s \<le> x"
      using b clk True Cons.prems(3) by fastforce
    ultimately show ?thesis unfolding ft using True srt by simp
  next
    case False
    with ih show ?thesis unfolding ft by simp
  qed
qed

text \<open>
  C3. Over a run of frames that all resolve the same target index, with a positive dwell
  time and a clock whose readings are positive and never go back: a frame calls the action
  once when the time elapsed since the timer's start has reached the dwell time, and not at
  all otherwise; after a call the target is still the same and the timer has restarted at
  that frame's reading; and any two calls of the run are at least one full dwell time apart.
\<close>

theorem dwell_fires_once_per_crossing:
  assumes "gaze_held i fs s" and "clock_ok t fs" and "0 < dwellTime s" and "timer_ok s"
  shows "(\<forall>k < length fs.
            action_calls (events fs s ! k) =
              (if dwellTime s \<le> now_elapsed (fs ! k) - timer_start i (fs ! k) (run (take k fs) s)
               then [i] else []) \<and>
            targetId (interaction (run (take (Suc k) fs) s)) = Some i \<and>
            startTime (interaction (run (take (Suc k) fs) s)) =
              Some (if dwellTime s \<le>
                         now_elapsed (fs ! k) - timer_start i (fs ! k) (run (take k fs) s)
                    then now_restart (fs ! k)
                    else timer_start i (fs ! k) (run (take k fs) s))) \<and>
         sorted_wrt (\<lambda>a b. a + dwellTime s \<le> b) (fire_times fs s)"
proof (intro conjI allI impI)
  fix k assume k: "k < length fs"
  note hf = held_frames [OF assms k]
  show "action_calls (events fs s ! k) =
              (if dwellTime s \<le> now_elapsed (fs ! k) - timer_start i (fs ! k) (run (take k fs) s)
               then [i] else [])"
    using hf by blast
  show "targetId (interaction (run (take (Suc k) fs) s)) = Some i"
    using hf by blast
  show "startTime (interaction (run (take (Suc k) fs) s)) =
              Some (if dwellTime s \<le>
                         now_elapsed (fs ! k) - timer_start i (fs ! k) (run (take k fs) s)
                    then now_restart (fs ! k)
                    else timer_start i (fs ! k) (run (take k fs) s))"
    using hf by blast
next
  show "sorted_wrt (\<lambda>a b. a + dwellTime s \<le> b) (fire_times fs s)"
  proof (cases fs)
    case Nil
    then show ?thesis by simp
  next
    case (Cons f gs)
    with fire_times_bound [of i f gs s t] assms show ?thesis by simp
  qed
qed

theorem dwell_fires_once_per_crossing_witness:
  "gaze_held 0 held_run scene0 \<and> clock_ok 0 held_run \<and> 0 < dwellTime scene0 \<and> timer_ok scene0 \<and>
   map action_calls (events held_run scene0) = [[], [], [0], [], [0]] \<and>
   fire_times held_run scene0 = [1100, 2100] \<and>
   startTime (interaction (run held_run scene0)) = Some 2100 \<and>
   sorted_wrt (\<lambda>a b. a + dwellTime scene0 \<le> b) (fire_times held_run scene0)"
proof -
  have h1: "gaze_held 0 held_run scene0"
    by (simp add: held_run_def resolves_def frame_defs scene_defs loco_defs dwell_defs Let_def)
  have h2: "clock_ok 0 held_run" by (simp add: held_run_def frame_defs)
  have h3: "0 < dwellTime scene0" by (simp add: scene0_def)
  have h4: "timer_ok scene0" by (simp add: scene0_def timer_ok_def)
  have e: "map action_calls (events held_run scene0) = [[], [], [0], [], [0]]"
    by (simp add: held_run_def frame_defs scene_defs loco_defs dwell_defs Let_def)
  have f: "fire_times held_run scene0 = [1100, 2100]"
    by (simp add: held_run_def frame_defs scene_defs loco_defs dwell_defs Let_def)
  have r: "startTime (interaction (run held_run scene0)) = Some 2100"
    by (simp add: held_run_def frame_defs scene_defs loco_defs dwell_defs Let_def)
  show ?thesis
    using dwell_fires_once_per_crossing [OF h1 h2 h3 h4] h1 h2 h3 h4 e f r by blast
qed

lemma clock_ok_sorted:
  "clock_ok t fs \<Longrightarrow> sorted (map now_elapsed fs) \<and> (\<forall>f \<in> set fs. t \<le> now_elapsed f)"
proof (induction fs arbitrary: t)
  case Nil
  show ?case by simp
next
  case (Cons f fs)
  from Cons.prems have c: "clock_ok (now_restart f) fs" and o: "t \<le> now_elapsed f"
    and r: "now_elapsed f \<le> now_restart f" by simp_all
  from Cons.IH [OF c] r o show ?case by fastforce
qed

lemma progresses_no_fire:
  assumes "gaze_held i (f # fs) s" and "clock_ok t (f # fs)" and "0 < dwellTime s"
    and "timer_ok s"
    and "\<forall>k. Suc k < length (f # fs) \<longrightarrow> action_calls (events (f # fs) s ! k) = []"
  shows "progresses (f # fs) s =
           map (\<lambda>g. Some (min ((now_elapsed g - timer_start i f s) / dwellTime s) 1)) (f # fs)"
  using assms
proof (induction fs arbitrary: f s t)
  case Nil
  note hs = held_step [OF Nil.prems(1-4)]
  show ?case by (simp add: reported_resolved [OF hs(6) Nil.prems(4) Nil.prems(3) hs(7)])
next
  case (Cons g fs)
  note hs = held_step [OF Cons.prems(1-4)]
  note rp = reported_resolved [OF hs(6) Cons.prems(4) Cons.prems(3) hs(7)]
  note ac = action_calls_resolved [OF hs(6) Cons.prems(4) Cons.prems(3) hs(7)]
  note nx = timer_start_next [OF hs(6) Cons.prems(4) Cons.prems(3) hs(7), of g]
  have "action_calls (events (f # g # fs) s ! 0) = []"
    using Cons.prems(5) [rule_format, of 0] by simp
  then have nofire: "\<not> dwellTime s \<le> now_elapsed f - timer_start i f s"
    by (simp add: ac split: if_splits)
  have rest: "\<forall>k. Suc k < length (g # fs) \<longrightarrow>
      action_calls (events (g # fs) (fst (animate f s)) ! k) = []"
  proof (intro allI impI)
    fix k assume "Suc k < length (g # fs)"
    then have "Suc (Suc k) < length (f # g # fs)" by simp
    with Cons.prems(5) have "action_calls (events (f # g # fs) s ! Suc k) = []" by blast
    then show "action_calls (events (g # fs) (fst (animate f s)) ! k) = []" by simp
  qed
  have "progresses (g # fs) (fst (animate f s)) =
      map (\<lambda>h. Some (min ((now_elapsed h - timer_start i f s) / dwellTime s) 1)) (g # fs)"
    using Cons.IH [OF hs(1) hs(2) hs(3) hs(5) rest] nofire by (simp only: nx hs(4) if_False)
  then show ?case using rp by simp
qed

lemma sorted_map_monotone:
  "sorted xs \<Longrightarrow> (\<And>a b. a \<le> b \<Longrightarrow> p a \<le> p b) \<Longrightarrow> sorted (map p xs)"
  by (induction xs) auto

lemma progress_mono:
  "0 < (d::real) \<Longrightarrow> a \<le> b \<Longrightarrow> min ((a - st) / d) 1 \<le> min ((b - st) / d) 1"
  by (simp add: divide_right_mono min.coboundedI1)

lemma animate_acquire:
  assumes "resolves i f s" and "targetId (interaction s) \<noteq> Some i" and "0 < now_acquire f"
    and "0 < dwellTime s"
  shows "reported_progress (snd (animate f s)) =
           Some (min ((now_elapsed f - now_acquire f) / dwellTime s) 1)"
  using assms
  by (auto simp: animate_def dwell_def resolves_def Let_def progress_full
      split: list.splits option.splits)

lemma animate_no_hit:
  assumes "intersects f = []"
  shows "snd (animate f s) = [HoverChange False 0]"
    and "targetId (interaction (fst (animate f s))) = None"
    and "startTime (interaction (fst (animate f s))) = None"
  using assms by (simp_all add: animate_def dwell_def)

text \<open>
  C4 (as amended). Dwell progress, reported each frame as elapsed over dwell time clamped
  to 1, is non-decreasing across the frames of a run that keeps the same target index
  resolved and in which the action has not fired before the last frame (a fire restarts the
  timer on the same target, so the progress starts again from 0). On the frame where the
  resolved target changes identity the timer restarts, so the progress reported is the one
  between that frame's own two clock readings, 0 when they coincide: nothing carries over.
  On a frame whose ray hits nothing, progress 0 is reported and target and timer are cleared.
\<close>

theorem dwell_progress_between_fires:
  "(gaze_held i fs s \<and> clock_ok t fs \<and> 0 < dwellTime s \<and> timer_ok s \<and>
    (\<forall>k. Suc k < length fs \<longrightarrow> action_calls (events fs s ! k) = []) \<longrightarrow>
      (\<exists>ps. progresses fs s = map Some ps \<and> sorted ps)) \<and>
   (resolves i f s \<and> targetId (interaction s) \<noteq> Some i \<and> 0 < now_acquire f \<and>
    0 < dwellTime s \<longrightarrow>
      reported_progress (snd (animate f s)) =
        Some (min ((now_elapsed f - now_acquire f) / dwellTime s) 1) \<and>
      (now_elapsed f = now_acquire f \<longrightarrow> reported_progress (snd (animate f s)) = Some 0)) \<and>
   (intersects f = [] \<longrightarrow>
      snd (animate f s) = [HoverChange False 0] \<and>
      targetId (interaction (fst (animate f s))) = None \<and>
      startTime (interaction (fst (animate f s))) = None)"
proof (intro conjI impI)
  assume h: "gaze_held i fs s \<and> clock_ok t fs \<and> 0 < dwellTime s \<and> timer_ok s \<and>
    (\<forall>k. Suc k < length fs \<longrightarrow> action_calls (events fs s ! k) = [])"
  show "\<exists>ps. progresses fs s = map Some ps \<and> sorted ps"
  proof (cases fs)
    case Nil
    then show ?thesis by simp
  next
    case (Cons g gs)
    let ?p = "\<lambda>x. min ((x - timer_start i g s) / dwellTime s) 1"
    have "progresses fs s = map (\<lambda>h. Some (?p (now_elapsed h))) fs"
      using progresses_no_fire [of i g gs s t] h Cons by simp
    then have eq: "progresses fs s = map Some (map ?p (map now_elapsed fs))"
      by (simp add: comp_def)
    have "sorted (map now_elapsed fs)" using clock_ok_sorted h by blast
    moreover have "?p a \<le> ?p b" if "a \<le> b" for a b
      using h that by (intro progress_mono) simp_all
    ultimately have "sorted (map ?p (map now_elapsed fs))" by (rule sorted_map_monotone)
    with eq show ?thesis by blast
  qed
next
  assume h: "resolves i f s \<and> targetId (interaction s) \<noteq> Some i \<and> 0 < now_acquire f \<and>
    0 < dwellTime s"
  then show a: "reported_progress (snd (animate f s)) =
        Some (min ((now_elapsed f - now_acquire f) / dwellTime s) 1)"
    using animate_acquire by blast
  assume "now_elapsed f = now_acquire f"
  with a show "reported_progress (snd (animate f s)) = Some 0" by simp
next
  assume h: "intersects f = []"
  then show "snd (animate f s) = [HoverChange False 0]" by (rule animate_no_hit)
  from h show "targetId (interaction (fst (animate f s))) = None" by (rule animate_no_hit)
  from h show "startTime (interaction (fst (animate f s))) = None" by (rule animate_no_hit)
qed

theorem dwell_progress_between_fires_witness:
  "gaze_held 0 (take 3 held_run) scene0 \<and> clock_ok 0 (take 3 held_run) \<and>
   0 < dwellTime scene0 \<and> timer_ok scene0 \<and>
   map action_calls (events (take 3 held_run) scene0) = [[], [], [0]] \<and>
   progresses (take 3 held_run) scene0 = [Some 0, Some (1 / 2), Some 1] \<and>
   resolves 1 (gaze_frame 1 face_up 100) scene0 \<and> targetId (interaction scene0) \<noteq> Some 1 \<and>
   reported_progress (snd (animate (gaze_frame 1 face_up 100) scene0)) = Some 0 \<and>
   intersects (idle_frame 100) = [] \<and>
   snd (animate (idle_frame 100) scene0) = [HoverChange False 0]"
proof -
  let ?R = "take 3 held_run"
  have h1: "gaze_held 0 ?R scene0"
    by (simp add: held_run_def resolves_def frame_defs scene_defs loco_defs dwell_defs Let_def)
  have h2: "clock_ok 0 ?R" by (simp add: held_run_def frame_defs)
  have h3: "0 < dwellTime scene0" by (simp add: scene0_def)
  have h4: "timer_ok scene0" by (simp add: scene0_def timer_ok_def)
  have e: "map action_calls (events ?R scene0) = [[], [], [0]]"
    by (simp add: held_run_def frame_defs scene_defs loco_defs dwell_defs Let_def)
  have p: "progresses ?R scene0 = [Some 0, Some (1 / 2), Some 1]"
    by (simp add: held_run_def frame_defs scene_defs loco_defs dwell_defs Let_def)
  have r: "resolves 1 (gaze_frame 1 face_up 100) scene0"
    by (simp add: resolves_def frame_defs scene_defs)
  have n: "targetId (interaction scene0) \<noteq> Some 1" by (simp add: scene0_def)
  have a: "0 < now_acquire (gaze_frame 1 face_up 100)"
    "now_elapsed (gaze_frame 1 face_up 100) = now_acquire (gaze_frame 1 face_up 100)"
    by (simp_all add: gaze_frame_def)
  have i: "intersects (idle_frame 100) = []" by (simp add: idle_frame_def)
  note inst = dwell_progress_between_fires [of 1 "[]" scene0 0 "gaze_frame 1 face_up 100"]
    dwell_progress_between_fires [of 0 ?R scene0 0 "idle_frame 100"]
  from inst(1) r n a h3
  have "reported_progress (snd (animate (gaze_frame 1 face_up 100) scene0)) = Some 0" by blast
  moreover from inst(2) i have "snd (animate (idle_frame 100) scene0) = [HoverChange False 0]"
    by blast
  ultimately show ?thesis using h1 h2 h3 h4 e p r n i by blast
qed

text \<open>
  Gaze held on one target with a dwell time of 1000 ms: the frames at 100, 600, 1100 and
  1600 ms report the progress 0, 0.5, 1 and 0.5, the action having fired at 1100 ms.
\<close>

theorem dwell_progress_counterexample:
  "gaze_held 0 (take 4 held_run) scene0 \<and> clock_ok 0 (take 4 held_run) \<and>
   progresses (take 4 held_run) scene0 = map Some [0, 1 / 2, 1, 1 / 2] \<and>
   \<not> sorted [0, 1 / 2, 1, 1 / 2 :: real]"
proof -
  have "\<not> sorted [0, 1 / 2, 1, 1 / 2 :: real]" by (simp only: sorted2) simp
  then show ?thesis
    by (simp add: held_run_def resolves_def frame_defs scene_defs loco_defs dwell_defs Let_def)
qed

text \<open>
  C9 (as amended). On a frame whose ray hits a block of the world, the dwell target's face
  normal is the normal of that frame's hit only when the hit changes the target's identity;
  on a frame whose target is the one of the frame before, the face normal stays what it
  was, whichever face the ray now hits.
\<close>

theorem face_normal_latched:
  assumes "resolves i f s"
  shows "faceNormal (interaction (fst (animate f s))) =
           (if targetId (interaction s) = Some i then faceNormal (interaction s)
            else face_normal (hd (intersects f)))"
  using assms
  by (auto simp: animate_def dwell_def resolves_def Let_def split: list.splits option.splits)

theorem face_normal_latched_witness:
  "resolves 1 (gaze_frame 1 face_east 200) scene0 \<and>
   faceNormal (interaction (fst (animate (gaze_frame 1 face_east 200) scene0))) = Some face_east \<and>
   resolves 1 (gaze_frame 1 face_east 200) (build_scene (Some face_up)) \<and>
   faceNormal (interaction (fst (animate (gaze_frame 1 face_east 200) (build_scene (Some face_up)))))
     = Some face_up"
proof -
  have r: "resolves 1 (gaze_frame 1 face_east 200) scene0"
    "resolves 1 (gaze_frame 1 face_east 200) (build_scene (Some face_up))"
    by (simp_all add: resolves_def build_scene_def frame_defs scene_defs)
  show ?thesis
    using face_normal_latched [OF r(1)] face_normal_latched [OF r(2)] r
    by (simp add: build_scene_def gaze_frame_def scene0_def)
qed

text \<open>
  Two frames on the same block, the first through its top face, the second through its
  east face: after the second frame the dwell target still carries the top face's normal.
\<close>

theorem face_normal_counterexample:
  "resolves 1 (gaze_frame 1 face_east 200) (fst (animate (gaze_frame 1 face_up 100) scene0)) \<and>
   face_normal (hd (intersects (gaze_frame 1 face_east 200))) = Some face_east \<and>
   faceNormal (interaction (run [gaze_frame 1 face_up 100, gaze_frame 1 face_east 200] scene0))
     = Some face_up \<and>
   faceNormal (interaction (run [gaze_frame 1 face_up 100, gaze_frame 1 face_east 200] scene0))
     \<noteq> face_normal (hd (intersects (gaze_frame 1 face_east 200)))"
  by (simp add: resolves_def frame_defs scene_defs loco_defs dwell_defs Let_def)

end
